theory Spec2Isabelle
  imports Main
begin

section \<open>Data model of \<open>cleaner.py\<close>\<close>

text \<open>
  The Python exceptions the module can raise. \<open>TooManySessions\<close> is the
  \<open>ValueError\<close> of \<open>get_metadata\<close>; \<open>UnpackError\<close> is the \<open>ValueError\<close> Python
  raises when a sequence is unpacked into the wrong number of targets;
  \<open>AttributeError\<close> and \<open>NameError\<close> are Python's own; \<open>RemoteError\<close> stands for
  whatever exception the XNAT interface raises when \<open>attrs.set\<close> fails.
\<close>

datatype error = TooManySessions | UnpackError | AttributeError | NameError | RemoteError

text \<open>
  One dictionary of \<open>dax.XnatUtils.list_sessions\<close>, restricted to the keys the module
  reads (\<open>date\<close>, \<open>ID\<close>, \<open>label\<close>, \<open>subject_ID\<close>).
\<close>

record session =
  date :: string
  ID :: string
  label :: string
  subject_ID :: string

text \<open>
  One dictionary of \<open>dax.XnatUtils.list_scans\<close>, restricted to the keys the module
  reads. The key \<open>ID\<close> of a scan is the field \<open>scan_ID\<close> here, since \<open>ID\<close> names the
  session's field.
\<close>

record scan =
  scan_ID :: string
  series_description :: string
  scan_type :: string

text \<open>The dictionary \<open>self.meta\<close>.\<close>

record meta =
  project :: string
  nsessions :: nat
  session_date :: "string list"
  session_id :: "string list"
  session_label :: "string list"
  subject_id :: "string list"

text \<open>
  The attributes of an \<open>XnatSubject\<close> once \<open>__init__\<close> has returned. A data frame built
  from a list of dictionaries has one row per dictionary, in order, indexed from 0:
  it is the list itself.
\<close>

record xnat_subject =
  subject :: string
  database :: string
  meta_of :: meta
  session_df :: "session list"
  scan_df :: "scan list"

text \<open>
  The XNAT interface is not part of the module: it is a parameter. The two listing
  calls are reads; \<open>attrs_set\<close> is \<open>interface.select(id).attrs.set('scan_type', t)\<close>,
  which takes the remote state \<open>'w\<close> to a new one or raises.
\<close>

record 'w client =
  list_sessions :: "string \<Rightarrow> string \<Rightarrow> session list"
  list_scans :: "string \<Rightarrow> string \<Rightarrow> string \<Rightarrow> scan list"
  attrs_set :: "'w \<Rightarrow> string \<Rightarrow> string \<Rightarrow> error + 'w"

section \<open>\<open>XnatSubject.get_metadata\<close>\<close>

text \<open>
  Lines 41-69. \<open>__init__\<close> (lines 23-38) stores its arguments and the interface and
  calls \<open>get_metadata\<close>, whose exception it does not catch. The scans of every session
  are listed before the session count is checked; the listing calls are reads, so only
  their results matter. \<open>self.subject[0:3]\<close> is \<open>take 3\<close>: a slice never raises.
\<close>

definition get_metadata :: "'w client \<Rightarrow> string \<Rightarrow> string \<Rightarrow> error + xnat_subject" where
  "get_metadata xnat db subj =
     (let session_data = list_sessions xnat db subj;
          sess_df = session_data;
          scan_data = concat (map (\<lambda>sess. list_scans xnat db subj (label sess)) sess_df);
          scan_df' = scan_data
      in if length session_data \<noteq> 1 then Inl TooManySessions
         else Inr \<lparr>subject = subj, database = db,
                   meta_of = \<lparr>project = take 3 subj,
                              nsessions = length session_data,
                              session_date = map date sess_df,
                              session_id = map ID sess_df,
                              session_label = map label sess_df,
                              subject_id = map subject_ID sess_df\<rparr>,
                   session_df = sess_df, scan_df = scan_df'\<rparr>)"

section \<open>\<open>XnatSubject.get_scan_rename_dict\<close>\<close>

text \<open>One row of \<open>scan_type_renames.csv\<close>.\<close>

record rename_rule =
  rule_project :: string
  rule_series_description :: string
  rule_scan_type :: string
  updated_scan_type :: string

text \<open>
  The data frame \<open>pandas.read_csv\<close> returns: the header of the file and its rows.
\<close>

record rules_df =
  columns :: "string list"
  rows :: "rename_rule list"

type_synonym rename_dict = "(string \<times> string) \<rightharpoonup> string"

text \<open>
  Lines 93-97. The loop is \<open>for ii, s in df.loc[...]\<close>, without \<open>.iterrows()\<close>:
  iterating a data frame yields its column labels, so each step unpacks one label, a
  string, into \<open>ii, s\<close>. That raises unless the label has exactly two characters, and
  then \<open>s\<close> is a one-character string, on which \<open>s.series_description\<close> raises. The
  rows selected by the filter are never read.
\<close>

fun rename_loop :: "string list \<Rightarrow> rename_dict \<Rightarrow> error + rename_dict" where
  "rename_loop [] rename_dict = Inr rename_dict"
| "rename_loop (c # cs) rename_dict =
     (if length c \<noteq> 2 then Inl UnpackError else Inl AttributeError)"

text \<open>
  Lines 87-97. \<open>df.project\<close> raises when the table has no column \<open>project\<close>; the filter
  keeps the columns and selects the rows of the project.
\<close>

definition get_scan_rename_dict :: "rules_df \<Rightarrow> string \<Rightarrow> error + rename_dict" where
  "get_scan_rename_dict df proj =
     (if ''project'' \<notin> set (columns df) then Inl AttributeError
      else let selected = \<lparr>columns = columns df,
                            rows = filter (\<lambda>r. rule_project r = proj) (rows df)\<rparr>
           in rename_loop (columns selected) Map.empty)"

text \<open>
  The index the specification describes: the rules of the project, keyed by
  (series description, scan type), a later row overwriting an earlier one.
\<close>

fun spec_rename_index :: "rename_rule list \<Rightarrow> string \<Rightarrow> rename_dict \<Rightarrow> rename_dict" where
  "spec_rename_index [] proj d = d"
| "spec_rename_index (r # rs) proj d =
     spec_rename_index rs proj
       (if rule_project r = proj
        then d((rule_series_description r, rule_scan_type r) \<mapsto> updated_scan_type r)
        else d)"

section \<open>\<open>XnatSubject.match_scan_types\<close>\<close>

text \<open>
  The state a run of the matcher acts on: the object \<open>self\<close>, the remote repository,
  and the trace of the \<open>attrs.set\<close> calls made so far, each as (scan ID, new type).
\<close>

record 'w state =
  self :: xnat_subject
  remote :: 'w
  calls :: "(string \<times> string) list"

text \<open>
  Lines 77-84, the loop over the rows of \<open>self.scan_df\<close>. An exception of \<open>attrs.set\<close>
  is not caught: it ends the loop. The result is the exception raised, if any, and the
  state reached.
\<close>

fun match_loop ::
  "'w client \<Rightarrow> rename_dict \<Rightarrow> bool \<Rightarrow> scan list \<Rightarrow> 'w state \<Rightarrow> error option \<times> 'w state" where
  "match_loop xnat rename_dict overwrite [] st = (None, st)"
| "match_loop xnat rename_dict overwrite (scan # rest) st =
     (let scan_tuple = (series_description scan, scan_type scan)
      in case rename_dict scan_tuple of
           None \<Rightarrow> match_loop xnat rename_dict overwrite rest st
         | Some new_type \<Rightarrow>
             if overwrite
             then (case attrs_set xnat (remote st) (scan_ID scan) new_type of
                     Inl e \<Rightarrow> (Some e, st\<lparr>calls := calls st @ [(scan_ID scan, new_type)]\<rparr>)
                   | Inr w \<Rightarrow>
                       match_loop xnat rename_dict overwrite rest
                         (st\<lparr>remote := w, calls := calls st @ [(scan_ID scan, new_type)]\<rparr>))
             else match_loop xnat rename_dict overwrite rest st)"

text \<open>The loop run on the rows of \<open>self.scan_df\<close>, for a given index.\<close>

definition run_matcher ::
  "'w client \<Rightarrow> rename_dict \<Rightarrow> bool \<Rightarrow> 'w state \<Rightarrow> error option \<times> 'w state" where
  "run_matcher xnat rename_dict overwrite st =
     match_loop xnat rename_dict overwrite (scan_df (self st)) st"

text \<open>Lines 72-84: the index is built first, from the project of \<open>self.meta\<close>.\<close>

definition match_scan_types ::
  "rules_df \<Rightarrow> 'w client \<Rightarrow> bool \<Rightarrow> 'w state \<Rightarrow> error option \<times> 'w state" where
  "match_scan_types df xnat overwrite st =
     (case get_scan_rename_dict df (project (meta_of (self st))) of
        Inl e \<Rightarrow> (Some e, st)
      | Inr rename_dict \<Rightarrow> run_matcher xnat rename_dict overwrite st)"

text \<open>
  The \<open>attrs.set\<close> calls a complete pass with \<open>overwrite\<close> makes: one per scan whose key
  is in the index, in row order.
\<close>

fun matched_calls :: "rename_dict \<Rightarrow> scan list \<Rightarrow> (string \<times> string) list" where
  "matched_calls rename_dict [] = []"
| "matched_calls rename_dict (scan # rest) =
     (case rename_dict (series_description scan, scan_type scan) of
        None \<Rightarrow> matched_calls rename_dict rest
      | Some new_type \<Rightarrow> (scan_ID scan, new_type) # matched_calls rename_dict rest)"

section \<open>\<open>test_xnat_subject\<close>\<close>

text \<open>
  What a check prints: the line of a passed check, or the heading of a failed one
  followed by the flagged rows, each as (row index, scan type), which is what
  \<open>to_string\<close> of the \<open>scan_type\<close> column shows.
\<close>

datatype printed =
  Header string
| NoDuplicates
| DuplicateScans "(nat \<times> string) list"
| NoIncomplete
| IncompleteScans "(nat \<times> string) list"

text \<open>
  \<open>df.scan_type\<close>: a data frame built from an empty list has no columns, so the
  attribute does not exist.
\<close>

definition scan_type_column :: "scan list \<Rightarrow> error + string list" where
  "scan_type_column df = (if df = [] then Inl AttributeError else Inr (map scan_type df))"

text \<open>
  \<open>Series.duplicated()\<close> with its default \<open>keep='first'\<close>: a position is marked when
  its value already occurred at an earlier position.
\<close>

fun duplicated_from :: "'a list \<Rightarrow> 'a list \<Rightarrow> bool list" where
  "duplicated_from seen [] = []"
| "duplicated_from seen (x # xs) = (x \<in> set seen) # duplicated_from (x # seen) xs"

definition duplicated :: "'a list \<Rightarrow> bool list" where
  "duplicated xs = duplicated_from [] xs"

text \<open>
  \<open>df.loc[mask]\<close> followed by the selection of the \<open>scan_type\<close> column: the rows whose
  mask is true, with their index.
\<close>

fun loc_from :: "nat \<Rightarrow> bool list \<Rightarrow> string list \<Rightarrow> (nat \<times> string) list" where
  "loc_from i (m # ms) (x # xs) = (if m then (i, x) # loc_from (Suc i) ms xs else loc_from (Suc i) ms xs)"
| "loc_from i ms xs = []"

definition loc :: "bool list \<Rightarrow> string list \<Rightarrow> (nat \<times> string) list" where
  "loc msk col = loc_from 0 msk col"

text \<open>Lines 112-120. The failed assertion is caught by the \<open>except\<close>.\<close>

definition check_duplicate_scans :: "scan list \<Rightarrow> error + printed" where
  "check_duplicate_scans df =
     (case scan_type_column df of
        Inl e \<Rightarrow> Inl e
      | Inr col \<Rightarrow>
          (let duplicates = loc (duplicated col) col
           in if length duplicates = 0 then Inr NoDuplicates
              else Inr (DuplicateScans duplicates)))"

text \<open>Python's \<open>s in x\<close> on strings: \<open>s\<close> occurs in \<open>x\<close> as a contiguous substring.\<close>

fun starts_with :: "string \<Rightarrow> string \<Rightarrow> bool" where
  "starts_with [] x = True"
| "starts_with (c # s) [] = False"
| "starts_with (c # s) (d # x) = (c = d \<and> starts_with s x)"

fun str_in :: "string \<Rightarrow> string \<Rightarrow> bool" where
  "str_in s [] = (s = [])"
| "str_in s (d # x) = (starts_with s (d # x) \<or> str_in s x)"

definition bad_strings :: "string list" where
  "bad_strings = [''inc'', ''bad'', ''incomplete'']"

text \<open>Lines 123-134. \<open>bad_scans.sum()\<close> counts the true entries of the mask.\<close>

definition check_incomplete_scans :: "scan list \<Rightarrow> error + printed" where
  "check_incomplete_scans df =
     (case scan_type_column df of
        Inl e \<Rightarrow> Inl e
      | Inr col \<Rightarrow>
          (let bad_scans = map (\<lambda>x. list_ex (\<lambda>s. str_in s x) bad_strings) col
           in if length (filter (\<lambda>b. b) bad_scans) = 0 then Inr NoIncomplete
              else Inr (IncompleteScans (loc bad_scans col))))"

text \<open>
  Lines 102-139. Line 137 reads the name \<open>x\<close>, which is neither a parameter nor a
  name the module binds: the parameter \<open>x\<close> here is the binding of that global name,
  \<open>None\<close> for the module as it is written. The result is the lines printed, or the
  exception raised.
\<close>

definition test_xnat_subject :: "xnat_subject option \<Rightarrow> xnat_subject \<Rightarrow> error + printed list" where
  "test_xnat_subject x xnat_subject =
     (case x of
        None \<Rightarrow> Inl NameError
      | Some x' \<Rightarrow>
          (case check_duplicate_scans (scan_df xnat_subject) of
             Inl e \<Rightarrow> Inl e
           | Inr out1 \<Rightarrow>
               (case check_incomplete_scans (scan_df xnat_subject) of
                  Inl e \<Rightarrow> Inl e
                | Inr out2 \<Rightarrow> Inr [Header (subject x'), out1, out2])))"

text \<open>The rows a printed line reports.\<close>

fun report_rows :: "printed \<Rightarrow> (nat \<times> string) list" where
  "report_rows (DuplicateScans rs) = rs"
| "report_rows (IncompleteScans rs) = rs"
| "report_rows out = []"

text \<open>
  The criterion the specification gives for the incomplete-scan check: the scan type,
  lowered as Python's \<open>str.lower\<close> lowers ASCII letters, contains one of the markers.
\<close>

definition lower_char :: "char \<Rightarrow> char" where
  "lower_char c =
     (let n = (of_char c :: nat) in if 65 \<le> n \<and> n \<le> 90 then char_of (n + 32) else c)"

definition spec_flagged :: "string \<Rightarrow> bool" where
  "spec_flagged x = list_ex (\<lambda>s. str_in s (map lower_char x)) bad_strings"

section \<open>Concrete inputs\<close>

definition session_a :: session where
  "session_a = \<lparr>date = ''2015-03-02'', ID = ''E00001'', label = ''LD4001_v1_s1'', subject_ID = ''S00001''\<rparr>"

definition session_b :: session where
  "session_b = \<lparr>date = ''2015-04-06'', ID = ''E00002'', label = ''LD4001_v1_s2'', subject_ID = ''S00001''\<rparr>"

definition mk_scan :: "string \<Rightarrow> string \<Rightarrow> string \<Rightarrow> scan" where
  "mk_scan i d t = \<lparr>scan_ID = i, series_description = d, scan_type = t\<rparr>"

text \<open>
  A client whose remote state is the list of the scan types set so far, that lists the
  given sessions and scans, and whose \<open>attrs.set\<close> raises on the given scan IDs.
\<close>

definition example_client ::
  "session list \<Rightarrow> scan list \<Rightarrow> string list \<Rightarrow> (string \<times> string) list client" where
  "example_client sessions scans failing =
     \<lparr>list_sessions = (\<lambda>db subj. sessions),
      list_scans = (\<lambda>db subj lab. scans),
      attrs_set = (\<lambda>w i t. if i \<in> set failing then Inl RemoteError else Inr ((i, t) # w))\<rparr>"

definition example_subject :: "scan list \<Rightarrow> xnat_subject" where
  "example_subject scans =
     \<lparr>subject = ''LD4001_v1'', database = ''CUTTING'',
      meta_of = \<lparr>project = ''LD4'', nsessions = 1, session_date = [''2015-03-02''],
                 session_id = [''E00001''], session_label = [''LD4001_v1_s1''],
                 subject_id = [''S00001'']\<rparr>,
      session_df = [session_a], scan_df = scans\<rparr>"

definition example_state :: "scan list \<Rightarrow> (string \<times> string) list state" where
  "example_state scans = \<lparr>self = example_subject scans, remote = [], calls = []\<rparr>"

definition example_rules :: rules_df where
  "example_rules =
     \<lparr>columns = [''project'', ''series_description'', ''scan_type'', ''updated_scan_type''],
      rows = [\<lparr>rule_project = ''P'', rule_series_description = ''T1'', rule_scan_type = ''raw'',
               updated_scan_type = ''T1w''\<rparr>,
              \<lparr>rule_project = ''P'', rule_series_description = ''T2'', rule_scan_type = ''raw'',
               updated_scan_type = ''T2w''\<rparr>,
              \<lparr>rule_project = ''Q'', rule_series_description = ''T1'', rule_scan_type = ''raw'',
               updated_scan_type = ''X''\<rparr>]\<rparr>"

definition example_index :: rename_dict where
  "example_index = [(''T1'', ''raw'') \<mapsto> ''T1w'', (''T2'', ''raw'') \<mapsto> ''T2w'']"

section \<open>Properties of the matcher loop\<close>

lemma match_loop_self: "self (snd (match_loop xnat d ow scans st)) = self st"
  by (induction scans arbitrary: st) (auto split: option.splits sum.splits)

lemma match_loop_dry: "match_loop xnat d False scans st = (None, st)"
  by (induction scans arbitrary: st) (auto split: option.splits)

lemma match_loop_calls:
  "fst (match_loop xnat d True scans st) = None \<Longrightarrow>
   calls (snd (match_loop xnat d True scans st)) = calls st @ matched_calls d scans"
  by (induction scans arbitrary: st) (auto split: option.splits sum.splits)

lemma match_loop_total:
  "\<forall>w i t. \<exists>w'. attrs_set xnat w i t = Inr w' \<Longrightarrow> fst (match_loop xnat d ow scans st) = None"
proof (induction scans arbitrary: st)
  case Nil
  then show ?case by simp
next
  case (Cons scan rest)
  show ?case
  proof (cases "d (series_description scan, scan_type scan)")
    case None
    then show ?thesis using Cons by simp
  next
    case (Some new_type)
    obtain w' where "attrs_set xnat (remote st) (scan_ID scan) new_type = Inr w'"
      using Cons.prems by blast
    then show ?thesis using Some Cons.IH[OF Cons.prems] by (cases ow) simp_all
  qed
qed

lemma match_loop_append:
  "match_loop xnat d ow (xs @ ys) st =
     (case match_loop xnat d ow xs st of
        (None, st1) \<Rightarrow> match_loop xnat d ow ys st1
      | (Some e, st1) \<Rightarrow> (Some e, st1))"
  by (induction xs arbitrary: st) (auto split: option.splits sum.splits)

lemma matched_calls_mem:
  "s \<in> set scans \<Longrightarrow> d (series_description s, scan_type s) = Some new \<Longrightarrow>
   (scan_ID s, new) \<in> set (matched_calls d scans)"
  by (induction scans) (auto split: option.splits)

section \<open>Properties of the rename index\<close>

text \<open>
  Whatever the table and the project, \<open>get_scan_rename_dict\<close> raises: the table has a
  column \<open>project\<close>, or \<open>df.project\<close> raises, and the loop raises on its first column.
\<close>

lemma get_scan_rename_dict_raises: "\<exists>e. get_scan_rename_dict df proj = Inl e"
proof (cases "columns df")
  case Nil
  then show ?thesis by (simp add: get_scan_rename_dict_def)
next
  case (Cons c cs)
  then show ?thesis by (simp add: get_scan_rename_dict_def Let_def)
qed

text \<open>So the method \<open>match_scan_types\<close> raises before its loop starts.\<close>

lemma match_scan_types_raises: "\<exists>e. match_scan_types df xnat overwrite st = (Some e, st)"
proof -
  obtain e where "get_scan_rename_dict df (project (meta_of (self st))) = Inl e"
    using get_scan_rename_dict_raises by blast
  then show ?thesis by (simp add: match_scan_types_def)
qed

section \<open>Properties of the checks\<close>

text \<open>
  The rows \<open>duplicated\<close> selects, for any list of values already seen and any starting
  index.
\<close>

lemma loc_dup_empty:
  "loc_from i (duplicated_from seen xs) xs = [] \<longleftrightarrow> distinct xs \<and> set xs \<inter> set seen = {}"
  by (induction xs arbitrary: i seen) auto

lemma loc_dup_count:
  "length (filter (\<lambda>r. snd r = v) (loc_from i (duplicated_from seen xs) xs)) =
     (if v \<in> set seen then count_list xs v else count_list xs v - 1)"
  by (induction xs arbitrary: i seen) (auto simp: count_list_0_iff)

lemma loc_dup_mem:
  "(k, v) \<in> set (loc_from i (duplicated_from seen xs) xs) \<longleftrightarrow>
     (\<exists>j < length xs. k = i + j \<and> xs ! j = v \<and> (v \<in> set seen \<or> v \<in> set (take j xs)))"
proof (induction xs arbitrary: i seen)
  case Nil
  then show ?case by simp
next
  case (Cons x xs)
  have "(k, v) \<in> set (loc_from i (duplicated_from seen (x # xs)) (x # xs)) \<longleftrightarrow>
        (k = i \<and> v = x \<and> x \<in> set seen) \<or>
        (k, v) \<in> set (loc_from (Suc i) (duplicated_from (x # seen) xs) xs)"
    by auto
  also have "\<dots> \<longleftrightarrow> (k = i \<and> v = x \<and> x \<in> set seen) \<or>
        (\<exists>j < length xs. k = Suc i + j \<and> xs ! j = v \<and> (v \<in> set (x # seen) \<or> v \<in> set (take j xs)))"
    by (simp only: Cons.IH)
  also have "\<dots> \<longleftrightarrow> (\<exists>j < length (x # xs). k = i + j \<and> (x # xs) ! j = v \<and>
        (v \<in> set seen \<or> v \<in> set (take j (x # xs))))"
    by (auto simp: less_Suc_eq_0_disj)
  finally show ?case .
qed

text \<open>\<open>str_in\<close> is the substring relation.\<close>

lemma starts_with_iff: "starts_with s x \<longleftrightarrow> (\<exists>q. x = s @ q)"
  by (induction s x rule: starts_with.induct) auto

lemma str_in_iff: "str_in s x \<longleftrightarrow> (\<exists>p q. x = p @ s @ q)"
proof (induction x)
  case Nil
  then show ?case by auto
next
  case (Cons d x)
  have "(\<exists>p q. d # x = p @ s @ q) \<longleftrightarrow> (\<exists>q. d # x = s @ q) \<or> (\<exists>p q. x = p @ s @ q)"
  proof
    assume "\<exists>p q. d # x = p @ s @ q"
    then obtain p q where pq: "d # x = p @ s @ q" by blast
    show "(\<exists>q. d # x = s @ q) \<or> (\<exists>p q. x = p @ s @ q)"
    proof (cases p)
      case Nil
      then show ?thesis using pq by auto
    next
      case (Cons a p')
      then have "x = p' @ s @ q" using pq by simp
      then show ?thesis by blast
    qed
  next
    assume "(\<exists>q. d # x = s @ q) \<or> (\<exists>p q. x = p @ s @ q)"
    then show "\<exists>p q. d # x = p @ s @ q"
    proof
      assume "\<exists>q. d # x = s @ q"
      then obtain q where "d # x = [] @ s @ q" by auto
      then show ?thesis by blast
    next
      assume "\<exists>p q. x = p @ s @ q"
      then obtain p q where "d # x = (d # p) @ s @ q" by auto
      then show ?thesis by blast
    qed
  qed
  then show ?case using Cons by (simp add: starts_with_iff)
qed

text \<open>
  What \<open>check_incomplete_scans\<close> computes on a snapshot with at least one scan: it
  reports exactly the rows whose scan type contains a marker, compared as written.
\<close>

lemma loc_map_mem:
  "(k, v) \<in> set (loc_from i (map P xs) xs) \<longleftrightarrow> (\<exists>j < length xs. k = i + j \<and> xs ! j = v \<and> P v)"
proof (induction xs arbitrary: i)
  case Nil
  then show ?case by simp
next
  case (Cons x xs)
  have "(k, v) \<in> set (loc_from i (map P (x # xs)) (x # xs)) \<longleftrightarrow>
        (k = i \<and> v = x \<and> P x) \<or> (k, v) \<in> set (loc_from (Suc i) (map P xs) xs)"
    by auto
  also have "\<dots> \<longleftrightarrow> (k = i \<and> v = x \<and> P x) \<or>
        (\<exists>j < length xs. k = Suc i + j \<and> xs ! j = v \<and> P v)"
    by (simp only: Cons.IH)
  also have "\<dots> \<longleftrightarrow> (\<exists>j < length (x # xs). k = i + j \<and> (x # xs) ! j = v \<and> P v)"
    by (auto simp: less_Suc_eq_0_disj)
  finally show ?case .
qed

lemma filter_true_empty: "filter (\<lambda>b. b) (map P xs) = [] \<longleftrightarrow> (\<forall>x \<in> set xs. \<not> P x)"
  by (induction xs) auto

lemma check_incomplete_scans_rows:
  assumes "df \<noteq> []"
  shows "\<exists>out. check_incomplete_scans df = Inr out \<and>
           (out = NoIncomplete \<longleftrightarrow>
              (\<forall>r \<in> set df. \<not> list_ex (\<lambda>s. str_in s (scan_type r)) bad_strings)) \<and>
           (\<forall>k v. (k, v) \<in> set (report_rows out) \<longleftrightarrow>
              k < length df \<and> scan_type (df ! k) = v \<and> list_ex (\<lambda>s. str_in s v) bad_strings)"
proof -
  define P where "P = (\<lambda>x. list_ex (\<lambda>s. str_in s x) bad_strings)"
  define col where "col = map scan_type df"
  have chk: "check_incomplete_scans df =
      (if filter (\<lambda>b. b) (map P col) = [] then Inr NoIncomplete
       else Inr (IncompleteScans (loc_from 0 (map P col) col)))"
    using assms by (simp add: check_incomplete_scans_def scan_type_column_def loc_def P_def col_def)
  have mem: "(k, v) \<in> set (loc_from 0 (map P col) col) \<longleftrightarrow>
               k < length df \<and> scan_type (df ! k) = v \<and> P v" for k v
    unfolding loc_map_mem by (auto simp: col_def)
  have empty: "filter (\<lambda>b. b) (map P col) = [] \<longleftrightarrow> (\<forall>r \<in> set df. \<not> P (scan_type r))"
    unfolding filter_true_empty by (simp add: col_def)
  show ?thesis
  proof (cases "filter (\<lambda>b. b) (map P col) = []")
    case True
    then have none: "\<forall>r \<in> set df. \<not> P (scan_type r)" using empty by simp
    then have "\<not> (k < length df \<and> scan_type (df ! k) = v \<and> P v)" for k v
      using nth_mem by blast
    then show ?thesis using True chk none unfolding P_def by simp
  next
    case False
    then have "\<not> (\<forall>r \<in> set df. \<not> P (scan_type r))" using empty by simp
    then show ?thesis using False chk mem unfolding P_def by simp
  qed
qed

lemma check_duplicate_scans_eq:
  "df \<noteq> [] \<Longrightarrow> check_duplicate_scans df =
     (if distinct (map scan_type df) then Inr NoDuplicates
      else Inr (DuplicateScans (loc_from 0 (duplicated_from [] (map scan_type df)) (map scan_type df))))"
  using loc_dup_empty [of 0 "[]" "map scan_type df"]
  by (simp add: check_duplicate_scans_def scan_type_column_def loc_def duplicated_def)

lemma report_rows_duplicates:
  assumes "df \<noteq> []" and "check_duplicate_scans df = Inr out"
  shows "report_rows out = loc_from 0 (duplicated_from [] (map scan_type df)) (map scan_type df)"
proof (cases "distinct (map scan_type df)")
  case True
  then have "out = NoDuplicates" using assms by (simp add: check_duplicate_scans_eq)
  moreover have "loc_from 0 (duplicated_from [] (map scan_type df)) (map scan_type df) = []"
    using True loc_dup_empty [of 0 "[]" "map scan_type df"] by simp
  ultimately show ?thesis by simp
next
  case False
  then show ?thesis using assms by (auto simp: check_duplicate_scans_eq)
qed

lemma in_take_iff: "v \<in> set (take j xs) \<longleftrightarrow> (\<exists>i<j. i < length xs \<and> xs ! i = v)"
  by (auto simp: in_set_conv_nth)

section \<open>The claims\<close>

text \<open>
  Claim C1. When the session listing returns exactly one session, \<open>get_metadata\<close>
  returns a subject whose session frame has one row (and records \<open>nsessions = 1\<close>); when
  it returns none, or two or more, \<open>get_metadata\<close> raises the too-many-sessions error; and
  it raises in exactly those cases.
\<close>

theorem get_metadata_one_session:
  "(length (list_sessions xnat db subj) = 1 \<longrightarrow>
      (\<exists>snap. get_metadata xnat db subj = Inr snap \<and> length (session_df snap) = 1
         \<and> nsessions (meta_of snap) = 1)) \<and>
   (length (list_sessions xnat db subj) \<noteq> 1 \<longrightarrow>
      get_metadata xnat db subj = Inl TooManySessions) \<and>
   ((\<exists>e. get_metadata xnat db subj = Inl e) \<longleftrightarrow> length (list_sessions xnat db subj) \<noteq> 1)"
  by (simp add: get_metadata_def Let_def)

text \<open>
  C1 at clients listing one session, no session and two sessions.
\<close>

theorem get_metadata_one_session_witness:
  "length (list_sessions (example_client [session_a] [mk_scan ''1'' ''T1'' ''raw''] []) ''CUTTING'' ''LD4001_v1'') = 1 \<and>
   (\<exists>snap. get_metadata (example_client [session_a] [mk_scan ''1'' ''T1'' ''raw''] []) ''CUTTING'' ''LD4001_v1'' = Inr snap
      \<and> length (session_df snap) = 1 \<and> nsessions (meta_of snap) = 1) \<and>
   length (list_sessions (example_client [] [] []) ''CUTTING'' ''LD4001_v1'') \<noteq> 1 \<and>
   get_metadata (example_client [] [] []) ''CUTTING'' ''LD4001_v1'' = Inl TooManySessions \<and>
   length (list_sessions (example_client [session_a, session_b] [] []) ''CUTTING'' ''LD4001_v1'') \<noteq> 1 \<and>
   get_metadata (example_client [session_a, session_b] [] []) ''CUTTING'' ''LD4001_v1'' = Inl TooManySessions"
  using get_metadata_one_session [of "example_client [session_a] [mk_scan ''1'' ''T1'' ''raw''] []" "''CUTTING''" "''LD4001_v1''"]
    get_metadata_one_session [of "example_client [] [] []" "''CUTTING''" "''LD4001_v1''"]
    get_metadata_one_session [of "example_client [session_a, session_b] [] []" "''CUTTING''" "''LD4001_v1''"]
  by (simp add: example_client_def)

text \<open>
  Claim C2. On the rule table of the claim, scoped to project \<open>P\<close>,
  \<open>get_scan_rename_dict\<close> raises on the first column label instead of returning the
  index \<open>{(T1, raw): T1w, (T2, raw): T2w}\<close>, which is what a pass over the rows of the
  project gives.
\<close>

theorem get_scan_rename_dict_example_raises:
  "get_scan_rename_dict example_rules ''P'' = Inl UnpackError \<and>
   spec_rename_index (rows example_rules) ''P'' Map.empty = example_index"
  by (simp add: get_scan_rename_dict_def example_rules_def example_index_def Let_def)

text \<open>
  Claim C3 as stated fails: for the scan \<open>(T1, raw)\<close> and the rule
  \<open>(T1, raw) \<rightarrow> T1w\<close>, a pass with \<open>overwrite\<close> calls \<open>attrs.set\<close> with \<open>T1w\<close>, and the
  scan type in the snapshot is still \<open>raw\<close>.
\<close>

theorem match_commit_counterexample:
  "fst (run_matcher (example_client [] [] []) example_index True
          (example_state [mk_scan ''1'' ''T1'' ''raw''])) = None \<and>
   calls (snd (run_matcher (example_client [] [] []) example_index True
          (example_state [mk_scan ''1'' ''T1'' ''raw'']))) = [(''1'', ''T1w'')] \<and>
   map scan_type (scan_df (self (snd (run_matcher (example_client [] [] []) example_index True
          (example_state [mk_scan ''1'' ''T1'' ''raw'']))))) = [''raw''] \<and>
   map scan_type (scan_df (self (snd (run_matcher (example_client [] [] []) example_index True
          (example_state [mk_scan ''1'' ''T1'' ''raw'']))))) \<noteq> [''T1w'']"
  by (simp add: run_matcher_def example_client_def example_index_def example_state_def
      example_subject_def mk_scan_def)

text \<open>
  Claim C3, amended. A pass with \<open>overwrite\<close> leaves the snapshot as it was. When it
  ends without an exception, the \<open>attrs.set\<close> calls it made are one per scan whose
  (series description, scan type) is a key of the index, in row order, each with that
  scan's ID and the rule's updated scan type; and it ends without an exception whenever
  \<open>attrs.set\<close> never raises.
\<close>

theorem match_commit_calls:
  "self (snd (run_matcher xnat d True st)) = self st \<and>
   (fst (run_matcher xnat d True st) = None \<longrightarrow>
      calls (snd (run_matcher xnat d True st)) = calls st @ matched_calls d (scan_df (self st)) \<and>
      (\<forall>s \<in> set (scan_df (self st)). \<forall>new.
          d (series_description s, scan_type s) = Some new \<longrightarrow>
          (scan_ID s, new) \<in> set (calls (snd (run_matcher xnat d True st))))) \<and>
   ((\<forall>w i t. \<exists>w'. attrs_set xnat w i t = Inr w') \<longrightarrow> fst (run_matcher xnat d True st) = None)"
proof (intro conjI impI ballI allI)
  show "self (snd (run_matcher xnat d True st)) = self st"
    by (simp add: run_matcher_def match_loop_self)
next
  assume "fst (run_matcher xnat d True st) = None"
  then show "calls (snd (run_matcher xnat d True st)) = calls st @ matched_calls d (scan_df (self st))"
    by (simp add: run_matcher_def match_loop_calls)
next
  fix s new
  assume fin: "fst (run_matcher xnat d True st) = None"
    and s: "s \<in> set (scan_df (self st))"
    and key: "d (series_description s, scan_type s) = Some new"
  have "calls (snd (run_matcher xnat d True st)) = calls st @ matched_calls d (scan_df (self st))"
    using fin by (simp add: run_matcher_def match_loop_calls)
  then show "(scan_ID s, new) \<in> set (calls (snd (run_matcher xnat d True st)))"
    using matched_calls_mem [of s "scan_df (self st)" d new] s key by simp
next
  assume "\<forall>w i t. \<exists>w'. attrs_set xnat w i t = Inr w'"
  then show "fst (run_matcher xnat d True st) = None"
    by (simp add: run_matcher_def match_loop_total)
qed

text \<open>
  C3, amended, at a client that never raises and one matching scan.
\<close>

theorem match_commit_calls_witness:
  "(\<forall>w i t. \<exists>w'. attrs_set (example_client [] [] []) w i t = Inr w') \<and>
   fst (run_matcher (example_client [] [] []) example_index True
          (example_state [mk_scan ''1'' ''T1'' ''raw''])) = None \<and>
   mk_scan ''1'' ''T1'' ''raw'' \<in> set (scan_df (self (example_state [mk_scan ''1'' ''T1'' ''raw'']))) \<and>
   example_index (series_description (mk_scan ''1'' ''T1'' ''raw''), scan_type (mk_scan ''1'' ''T1'' ''raw'')) = Some ''T1w'' \<and>
   (scan_ID (mk_scan ''1'' ''T1'' ''raw''), ''T1w'') \<in> set (calls (snd (run_matcher (example_client [] [] []) example_index True
          (example_state [mk_scan ''1'' ''T1'' ''raw''])))) \<and>
   self (snd (run_matcher (example_client [] [] []) example_index True
          (example_state [mk_scan ''1'' ''T1'' ''raw'']))) = example_subject [mk_scan ''1'' ''T1'' ''raw'']"
proof -
  have ok: "\<forall>w i t. \<exists>w'. attrs_set (example_client [] [] []) w i t = Inr w'"
    by (simp add: example_client_def)
  have key: "example_index (series_description (mk_scan ''1'' ''T1'' ''raw''), scan_type (mk_scan ''1'' ''T1'' ''raw'')) = Some ''T1w''"
    by (simp add: example_index_def mk_scan_def)
  have mem: "mk_scan ''1'' ''T1'' ''raw'' \<in> set (scan_df (self (example_state [mk_scan ''1'' ''T1'' ''raw''])))"
    by (simp add: example_state_def example_subject_def)
  have self0: "self (example_state [mk_scan ''1'' ''T1'' ''raw'']) = example_subject [mk_scan ''1'' ''T1'' ''raw'']"
    by (simp add: example_state_def)
  note T = match_commit_calls [of "example_client [] [] []" example_index "example_state [mk_scan ''1'' ''T1'' ''raw'']"]
  have fin: "fst (run_matcher (example_client [] [] []) example_index True
          (example_state [mk_scan ''1'' ''T1'' ''raw''])) = None"
    using T [THEN conjunct2, THEN conjunct2] ok by (rule mp)
  have all: "\<forall>s \<in> set (scan_df (self (example_state [mk_scan ''1'' ''T1'' ''raw'']))). \<forall>new.
          example_index (series_description s, scan_type s) = Some new \<longrightarrow>
          (scan_ID s, new) \<in> set (calls (snd (run_matcher (example_client [] [] []) example_index True
             (example_state [mk_scan ''1'' ''T1'' ''raw'']))))"
    using T [THEN conjunct2, THEN conjunct1] fin by blast
  have call: "(scan_ID (mk_scan ''1'' ''T1'' ''raw''), ''T1w'') \<in> set (calls (snd (run_matcher (example_client [] [] []) example_index True
          (example_state [mk_scan ''1'' ''T1'' ''raw'']))))"
    using all mem key by blast
  show ?thesis
    using ok fin mem key call T [THEN conjunct1] self0 by simp
qed

text \<open>
  Claim C4 as stated fails: on the scan \<open>(T1, raw)\<close> with the rule
  \<open>(T1, raw) \<rightarrow> T1w\<close>, the second pass with \<open>overwrite\<close> matches the scan again and calls
  \<open>attrs.set\<close> a second time.
\<close>

theorem match_twice_counterexample:
  "calls (snd (run_matcher (example_client [] [] []) example_index True
          (example_state [mk_scan ''1'' ''T1'' ''raw'']))) = [(''1'', ''T1w'')] \<and>
   calls (snd (run_matcher (example_client [] [] []) example_index True
     (snd (run_matcher (example_client [] [] []) example_index True
          (example_state [mk_scan ''1'' ''T1'' ''raw'']))))) = [(''1'', ''T1w''), (''1'', ''T1w'')] \<and>
   remote (snd (run_matcher (example_client [] [] []) example_index True
     (snd (run_matcher (example_client [] [] []) example_index True
          (example_state [mk_scan ''1'' ''T1'' ''raw'']))))) = [(''1'', ''T1w''), (''1'', ''T1w'')]"
  by (simp add: run_matcher_def example_client_def example_index_def example_state_def
      example_subject_def mk_scan_def)

text \<open>
  Claim C4, amended. Two passes with \<open>overwrite\<close> in succession leave the snapshot
  as it was, so the second pass matches the scans the first matched: when both end
  without an exception, the second repeats the \<open>attrs.set\<close> calls of the first; and
  both end without an exception whenever \<open>attrs.set\<close> never raises.
\<close>

theorem match_twice_repeats:
  "self (snd (run_matcher xnat d True (snd (run_matcher xnat d True st)))) = self st \<and>
   (fst (run_matcher xnat d True st) = None \<and>
    fst (run_matcher xnat d True (snd (run_matcher xnat d True st))) = None \<longrightarrow>
      calls (snd (run_matcher xnat d True (snd (run_matcher xnat d True st)))) =
        calls (snd (run_matcher xnat d True st)) @ matched_calls d (scan_df (self st)) \<and>
      calls (snd (run_matcher xnat d True st)) = calls st @ matched_calls d (scan_df (self st))) \<and>
   ((\<forall>w i t. \<exists>w'. attrs_set xnat w i t = Inr w') \<longrightarrow>
      fst (run_matcher xnat d True st) = None \<and>
      fst (run_matcher xnat d True (snd (run_matcher xnat d True st))) = None)"
proof -
  define st1 where "st1 = snd (run_matcher xnat d True st)"
  have s1: "self st1 = self st"
    by (simp add: st1_def run_matcher_def match_loop_self)
  have s2: "self (snd (run_matcher xnat d True st1)) = self st"
    using s1 by (simp add: run_matcher_def match_loop_self)
  have c1: "calls st1 = calls st @ matched_calls d (scan_df (self st))"
    if "fst (run_matcher xnat d True st) = None"
    using that by (simp add: st1_def run_matcher_def match_loop_calls)
  have c2: "calls (snd (run_matcher xnat d True st1)) = calls st1 @ matched_calls d (scan_df (self st))"
    if "fst (run_matcher xnat d True st1) = None"
    using that s1 by (simp add: run_matcher_def match_loop_calls)
  have t: "fst (run_matcher xnat d True st') = None"
    if "\<forall>w i t. \<exists>w'. attrs_set xnat w i t = Inr w'" for st'
    using that by (simp add: run_matcher_def match_loop_total)
  show ?thesis
    using s2 c1 c2 t unfolding st1_def by blast
qed

text \<open>
  C4, amended, at a client that never raises and one matching scan.
\<close>

theorem match_twice_repeats_witness:
  "(\<forall>w i t. \<exists>w'. attrs_set (example_client [] [] []) w i t = Inr w') \<and>
   fst (run_matcher (example_client [] [] []) example_index True
          (example_state [mk_scan ''1'' ''T1'' ''raw''])) = None \<and>
   fst (run_matcher (example_client [] [] []) example_index True
     (snd (run_matcher (example_client [] [] []) example_index True
          (example_state [mk_scan ''1'' ''T1'' ''raw''])))) = None \<and>
   calls (snd (run_matcher (example_client [] [] []) example_index True
     (snd (run_matcher (example_client [] [] []) example_index True
          (example_state [mk_scan ''1'' ''T1'' ''raw'']))))) =
     calls (snd (run_matcher (example_client [] [] []) example_index True
          (example_state [mk_scan ''1'' ''T1'' ''raw'']))) @ [(''1'', ''T1w'')]"
proof -
  have ok: "\<forall>w i t. \<exists>w'. attrs_set (example_client [] [] []) w i t = Inr w'"
    by (simp add: example_client_def)
  have mc: "matched_calls example_index (scan_df (self (example_state [mk_scan ''1'' ''T1'' ''raw'']))) = [(''1'', ''T1w'')]"
    by (simp add: example_index_def example_state_def example_subject_def mk_scan_def)
  note T = match_twice_repeats [of "example_client [] [] []" example_index "example_state [mk_scan ''1'' ''T1'' ''raw'']"]
  have fin: "fst (run_matcher (example_client [] [] []) example_index True
          (example_state [mk_scan ''1'' ''T1'' ''raw''])) = None \<and>
      fst (run_matcher (example_client [] [] []) example_index True
     (snd (run_matcher (example_client [] [] []) example_index True
          (example_state [mk_scan ''1'' ''T1'' ''raw''])))) = None"
    using T [THEN conjunct2, THEN conjunct2] ok by (rule mp)
  show ?thesis
    using ok fin T [THEN conjunct2, THEN conjunct1, THEN mp, OF fin] mc by simp
qed

text \<open>
  Claim C5. Without \<open>overwrite\<close>, the matcher loop run with any index, on any snapshot
  and remote state, ends without an exception in the state it started from: no
  \<open>attrs.set\<close> call is added to the trace and no scan type of the snapshot changes.
  The same holds of the whole method, whatever the rule table.
\<close>

theorem match_dry_run:
  "run_matcher xnat rename_dict False st = (None, st) \<and>
   calls (snd (match_scan_types df xnat False st)) = calls st \<and>
   remote (snd (match_scan_types df xnat False st)) = remote st \<and>
   self (snd (match_scan_types df xnat False st)) = self st"
  by (simp add: run_matcher_def match_loop_dry match_scan_types_def split: sum.splits)

text \<open>
  Claim C6 as stated fails: on the scans \<open>T1w, T1w, T2w\<close> the report of the
  duplicate check is the second \<open>T1w\<close> row alone (index 1); the first \<open>T1w\<close> row
  (index 0) is not in it.
\<close>

theorem check_duplicate_scans_report_counterexample:
  "check_duplicate_scans [mk_scan ''1'' ''t1_mprage'' ''T1w'', mk_scan ''2'' ''t1_mprage'' ''T1w'',
       mk_scan ''3'' ''t2_tse'' ''T2w''] = Inr (DuplicateScans [(1, ''T1w'')]) \<and>
   (0, ''T1w'') \<notin> set (report_rows (DuplicateScans [(1, ''T1w'')]))"
  by (simp add: check_duplicate_scans_def scan_type_column_def loc_def duplicated_def mk_scan_def)

text \<open>
  Claim C6, amended. On a snapshot with at least one scan the duplicate check returns
  a verdict; it passes iff no scan type occurs twice; every scan type that occurs more
  than once is in the report; and the report holds exactly the rows whose scan type
  already occurred in an earlier row. On the scans \<open>T1w, T1w, T2w\<close> it fails and
  reports the row of index 1; on \<open>T1w, T2w\<close> it passes.
\<close>

theorem check_duplicate_scans_report:
  "(df \<noteq> [] \<longrightarrow>
     (\<exists>out. check_duplicate_scans df = Inr out \<and>
        (out = NoDuplicates \<longleftrightarrow> distinct (map scan_type df)) \<and>
        (\<forall>v. 1 < count_list (map scan_type df) v \<longrightarrow> v \<in> snd ` set (report_rows out)) \<and>
        (\<forall>i v. (i, v) \<in> set (report_rows out) \<longleftrightarrow>
           i < length df \<and> scan_type (df ! i) = v \<and> (\<exists>j<i. scan_type (df ! j) = v)))) \<and>
   check_duplicate_scans [mk_scan ''1'' ''t1_mprage'' ''T1w'', mk_scan ''2'' ''t1_mprage'' ''T1w'',
       mk_scan ''3'' ''t2_tse'' ''T2w''] = Inr (DuplicateScans [(1, ''T1w'')]) \<and>
   check_duplicate_scans [mk_scan ''1'' ''t1_mprage'' ''T1w'', mk_scan ''2'' ''t2_tse'' ''T2w'']
     = Inr NoDuplicates"
proof (intro conjI impI)
  assume ne: "df \<noteq> []"
  define col where "col = map scan_type df"
  define rep where "rep = loc_from 0 (duplicated_from [] col) col"
  obtain out where out: "check_duplicate_scans df = Inr out"
    using ne by (cases "distinct (map scan_type df)") (simp_all add: check_duplicate_scans_eq)
  have rows: "report_rows out = rep"
    using report_rows_duplicates [OF ne out] by (simp add: rep_def col_def)
  have pass: "out = NoDuplicates \<longleftrightarrow> distinct (map scan_type df)"
    using out ne by (auto simp: check_duplicate_scans_eq split: if_splits)
  have flagged: "v \<in> snd ` set rep" if "1 < count_list col v" for v
  proof -
    have "length (filter (\<lambda>r. snd r = v) rep) = count_list col v - 1"
      using loc_dup_count [of v 0 "[]" col] by (simp add: rep_def)
    then have "filter (\<lambda>r. snd r = v) rep \<noteq> []" using that by auto
    then obtain r where "r \<in> set rep" "snd r = v"
      by (auto simp: filter_empty_conv)
    then show ?thesis by force
  qed
  have mem: "(i, v) \<in> set rep \<longleftrightarrow>
      i < length df \<and> scan_type (df ! i) = v \<and> (\<exists>j<i. scan_type (df ! j) = v)" for i v
  proof -
    have "(i, v) \<in> set rep \<longleftrightarrow> i < length col \<and> col ! i = v \<and> v \<in> set (take i col)"
      using loc_dup_mem [of i v 0 "[]" col] by (auto simp: rep_def)
    also have "\<dots> \<longleftrightarrow> i < length df \<and> scan_type (df ! i) = v \<and> (\<exists>j<i. scan_type (df ! j) = v)"
      by (auto simp: in_take_iff col_def)
    finally show ?thesis .
  qed
  show "\<exists>out. check_duplicate_scans df = Inr out \<and>
        (out = NoDuplicates \<longleftrightarrow> distinct (map scan_type df)) \<and>
        (\<forall>v. 1 < count_list (map scan_type df) v \<longrightarrow> v \<in> snd ` set (report_rows out)) \<and>
        (\<forall>i v. (i, v) \<in> set (report_rows out) \<longleftrightarrow>
           i < length df \<and> scan_type (df ! i) = v \<and> (\<exists>j<i. scan_type (df ! j) = v))"
  proof (intro exI conjI allI impI)
    show "check_duplicate_scans df = Inr out" by (rule out)
    show "out = NoDuplicates \<longleftrightarrow> distinct (map scan_type df)" by (rule pass)
    show "v \<in> snd ` set (report_rows out)" if "1 < count_list (map scan_type df) v" for v
      using flagged [of v] that by (simp add: rows col_def)
    show "(i, v) \<in> set (report_rows out) \<longleftrightarrow>
           i < length df \<and> scan_type (df ! i) = v \<and> (\<exists>j<i. scan_type (df ! j) = v)" for i v
      using mem [of i v] by (simp only: rows)
  qed
next
  show "check_duplicate_scans [mk_scan ''1'' ''t1_mprage'' ''T1w'', mk_scan ''2'' ''t1_mprage'' ''T1w'',
       mk_scan ''3'' ''t2_tse'' ''T2w''] = Inr (DuplicateScans [(1, ''T1w'')])"
    by (simp add: check_duplicate_scans_def scan_type_column_def loc_def duplicated_def mk_scan_def)
next
  show "check_duplicate_scans [mk_scan ''1'' ''t1_mprage'' ''T1w'', mk_scan ''2'' ''t2_tse'' ''T2w'']
     = Inr NoDuplicates"
    by (simp add: check_duplicate_scans_def scan_type_column_def loc_def duplicated_def mk_scan_def)
qed

text \<open>
  C6, amended, on the scans \<open>T1w, T1w, T2w\<close>.
\<close>

theorem check_duplicate_scans_report_witness:
  "[mk_scan ''1'' ''t1_mprage'' ''T1w'', mk_scan ''2'' ''t1_mprage'' ''T1w'',
       mk_scan ''3'' ''t2_tse'' ''T2w''] \<noteq> [] \<and>
   1 < count_list (map scan_type [mk_scan ''1'' ''t1_mprage'' ''T1w'', mk_scan ''2'' ''t1_mprage'' ''T1w'',
       mk_scan ''3'' ''t2_tse'' ''T2w'']) ''T1w'' \<and>
   (\<exists>out. check_duplicate_scans [mk_scan ''1'' ''t1_mprage'' ''T1w'', mk_scan ''2'' ''t1_mprage'' ''T1w'',
       mk_scan ''3'' ''t2_tse'' ''T2w''] = Inr out \<and> out \<noteq> NoDuplicates \<and>
       ''T1w'' \<in> snd ` set (report_rows out) \<and> (0, ''T1w'') \<notin> set (report_rows out))"
proof -
  define ex where "ex = [mk_scan ''1'' ''t1_mprage'' ''T1w'', mk_scan ''2'' ''t1_mprage'' ''T1w'',
       mk_scan ''3'' ''t2_tse'' ''T2w'']"
  have ne: "ex \<noteq> []" by (simp add: ex_def)
  have cnt: "1 < count_list (map scan_type ex) ''T1w''" by (simp add: ex_def mk_scan_def)
  have nd: "\<not> distinct (map scan_type ex)" by (simp add: ex_def mk_scan_def)
  obtain out where out: "check_duplicate_scans ex = Inr out"
    and pass: "out = NoDuplicates \<longleftrightarrow> distinct (map scan_type ex)"
    and flagged: "\<forall>v. 1 < count_list (map scan_type ex) v \<longrightarrow> v \<in> snd ` set (report_rows out)"
    and mem: "\<forall>i v. (i, v) \<in> set (report_rows out) \<longleftrightarrow>
           i < length ex \<and> scan_type (ex ! i) = v \<and> (\<exists>j<i. scan_type (ex ! j) = v)"
    using check_duplicate_scans_report [of ex, THEN conjunct1, THEN mp, OF ne] by blast
  have "out \<noteq> NoDuplicates" using pass nd by simp
  moreover have "''T1w'' \<in> snd ` set (report_rows out)" using flagged cnt by blast
  moreover have "(0, ''T1w'') \<notin> set (report_rows out)" using mem by simp
  ultimately show ?thesis using ne cnt out unfolding ex_def by blast
qed

text \<open>
  Claim C7. The markers are compared case-sensitively: a scan of type \<open>Incomplete\<close>,
  which contains \<open>inc\<close> once lowered, passes the check. The two inputs of the claim
  behave as it says: \<open>incomplete_scan\<close> is reported, \<open>T1w\<close> passes.
\<close>

theorem check_incomplete_scans_case_sensitive:
  "check_incomplete_scans [mk_scan ''1'' ''t1_mprage'' ''Incomplete''] = Inr NoIncomplete \<and>
   spec_flagged ''Incomplete'' \<and>
   check_incomplete_scans [mk_scan ''1'' ''t1_mprage'' ''incomplete_scan'']
     = Inr (IncompleteScans [(0, ''incomplete_scan'')]) \<and>
   check_incomplete_scans [mk_scan ''1'' ''t1_mprage'' ''T1w''] = Inr NoIncomplete"
proof -
  have "spec_flagged ''Incomplete''"
    by code_simp
  then show ?thesis
    by (simp add: check_incomplete_scans_def scan_type_column_def bad_strings_def loc_def
        mk_scan_def)
qed

text \<open>
  Claim C8 as stated fails: with two matching scans and a client whose \<open>attrs.set\<close>
  raises on the first, the pass ends with that exception and makes no call for the
  second scan.
\<close>

theorem match_failure_counterexample:
  "matched_calls example_index [mk_scan ''1'' ''T1'' ''raw'', mk_scan ''2'' ''T2'' ''raw'']
     = [(''1'', ''T1w''), (''2'', ''T2w'')] \<and>
   fst (run_matcher (example_client [] [] [''1'']) example_index True
          (example_state [mk_scan ''1'' ''T1'' ''raw'', mk_scan ''2'' ''T2'' ''raw''])) = Some RemoteError \<and>
   calls (snd (run_matcher (example_client [] [] [''1'']) example_index True
          (example_state [mk_scan ''1'' ''T1'' ''raw'', mk_scan ''2'' ''T2'' ''raw'']))) = [(''1'', ''T1w'')] \<and>
   (''2'', ''T2w'') \<notin> set (calls (snd (run_matcher (example_client [] [] [''1'']) example_index True
          (example_state [mk_scan ''1'' ''T1'' ''raw'', mk_scan ''2'' ''T2'' ''raw'']))))"
  by (simp add: run_matcher_def example_client_def example_index_def example_state_def
      example_subject_def mk_scan_def)

text \<open>
  Claim C8, amended. When \<open>attrs.set\<close> raises for a matched scan during a pass with
  \<open>overwrite\<close>, the pass ends there with that exception: the result is the state
  reached before the call, with the failed call as the last of its trace, whatever
  scans follow.
\<close>

theorem match_failure_aborts:
  assumes "match_loop xnat d True pre st = (None, st1)"
    and "d (series_description scan, scan_type scan) = Some new"
    and "attrs_set xnat (remote st1) (scan_ID scan) new = Inl e"
  shows "match_loop xnat d True (pre @ scan # rest) st =
           (Some e, st1\<lparr>calls := calls st1 @ [(scan_ID scan, new)]\<rparr>)"
  using assms by (simp add: match_loop_append)

text \<open>
  C8, amended, at three matching scans and a client that raises on the second.
\<close>

theorem match_failure_aborts_witness:
  "match_loop (example_client [] [] [''2'']) example_index True [mk_scan ''1'' ''T1'' ''raw'']
      (example_state [mk_scan ''1'' ''T1'' ''raw'', mk_scan ''2'' ''T2'' ''raw'', mk_scan ''3'' ''T1'' ''raw''])
     = (None, \<lparr>self = example_subject [mk_scan ''1'' ''T1'' ''raw'', mk_scan ''2'' ''T2'' ''raw'', mk_scan ''3'' ''T1'' ''raw''],
               remote = [(''1'', ''T1w'')], calls = [(''1'', ''T1w'')]\<rparr>) \<and>
   example_index (series_description (mk_scan ''2'' ''T2'' ''raw''), scan_type (mk_scan ''2'' ''T2'' ''raw'')) = Some ''T2w'' \<and>
   attrs_set (example_client [] [] [''2'']) [(''1'', ''T1w'')] (scan_ID (mk_scan ''2'' ''T2'' ''raw'')) ''T2w'' = Inl RemoteError \<and>
   match_loop (example_client [] [] [''2'']) example_index True
      ([mk_scan ''1'' ''T1'' ''raw''] @ mk_scan ''2'' ''T2'' ''raw'' # [mk_scan ''3'' ''T1'' ''raw''])
      (example_state [mk_scan ''1'' ''T1'' ''raw'', mk_scan ''2'' ''T2'' ''raw'', mk_scan ''3'' ''T1'' ''raw''])
     = (Some RemoteError,
        \<lparr>self = example_subject [mk_scan ''1'' ''T1'' ''raw'', mk_scan ''2'' ''T2'' ''raw'', mk_scan ''3'' ''T1'' ''raw''],
         remote = [(''1'', ''T1w'')], calls = [(''1'', ''T1w''), (''2'', ''T2w'')]\<rparr>)"
proof -
  have pre: "match_loop (example_client [] [] [''2'']) example_index True [mk_scan ''1'' ''T1'' ''raw'']
      (example_state [mk_scan ''1'' ''T1'' ''raw'', mk_scan ''2'' ''T2'' ''raw'', mk_scan ''3'' ''T1'' ''raw''])
     = (None, \<lparr>self = example_subject [mk_scan ''1'' ''T1'' ''raw'', mk_scan ''2'' ''T2'' ''raw'', mk_scan ''3'' ''T1'' ''raw''],
               remote = [(''1'', ''T1w'')], calls = [(''1'', ''T1w'')]\<rparr>)"
    by (simp add: example_client_def example_index_def example_state_def mk_scan_def)
  have key: "example_index (series_description (mk_scan ''2'' ''T2'' ''raw''), scan_type (mk_scan ''2'' ''T2'' ''raw'')) = Some ''T2w''"
    by (simp add: example_index_def mk_scan_def)
  have fails: "attrs_set (example_client [] [] [''2'']) 
      (remote \<lparr>self = example_subject [mk_scan ''1'' ''T1'' ''raw'', mk_scan ''2'' ''T2'' ''raw'', mk_scan ''3'' ''T1'' ''raw''],
               remote = [(''1'', ''T1w'')], calls = [(''1'', ''T1w'')]\<rparr>) (scan_ID (mk_scan ''2'' ''T2'' ''raw'')) ''T2w'' = Inl RemoteError"
    by (simp add: example_client_def mk_scan_def)
  show ?thesis
    using match_failure_aborts [OF pre key fails, of "[mk_scan ''3'' ''T1'' ''raw'']"] pre key fails
    by (simp add: mk_scan_def)
qed

text \<open>
  Claim C9. With the name \<open>x\<close> unbound, as the module leaves it,
  \<open>test_xnat_subject\<close> raises \<open>NameError\<close> on every snapshot, before either check runs.
  Were \<open>x\<close> bound, a snapshot with no scan would still make it raise
  \<open>AttributeError\<close>.
\<close>

theorem test_xnat_subject_raises:
  "test_xnat_subject None xnat_subject = Inl NameError \<and>
   test_xnat_subject (Some x) (xnat_subject\<lparr>scan_df := []\<rparr>) = Inl AttributeError"
  by (simp add: test_xnat_subject_def check_duplicate_scans_def scan_type_column_def)

text \<open>
  Claim C10. For a scan type that occurs in the snapshot, the duplicate check returns
  a verdict whose report has one row less of that type than the snapshot has, and the
  first row of that type is not in the report.
\<close>

theorem duplicated_later_occurrences:
  assumes "v \<in> set (map scan_type df)"
  shows "\<exists>out. check_duplicate_scans df = Inr out \<and>
           Suc (length (filter (\<lambda>r. snd r = v) (report_rows out))) = count_list (map scan_type df) v \<and>
           (\<forall>i. i < length df \<and> scan_type (df ! i) = v \<and> (\<forall>j<i. scan_type (df ! j) \<noteq> v)
                 \<longrightarrow> i \<notin> fst ` set (report_rows out))"
proof -
  have ne: "df \<noteq> []" using assms by auto
  define col where "col = map scan_type df"
  define rep where "rep = loc_from 0 (duplicated_from [] col) col"
  obtain out where out: "check_duplicate_scans df = Inr out"
    using ne by (cases "distinct (map scan_type df)") (simp_all add: check_duplicate_scans_eq)
  have rows: "report_rows out = rep"
    using report_rows_duplicates [OF ne out] by (simp add: rep_def col_def)
  have pos: "0 < count_list col v"
    using assms count_list_0_iff [of col v] by (auto simp: col_def)
  have "length (filter (\<lambda>r. snd r = v) rep) = count_list col v - 1"
    using loc_dup_count [of v 0 "[]" col] by (simp add: rep_def)
  then have cnt: "Suc (length (filter (\<lambda>r. snd r = v) rep)) = count_list col v"
    using pos by simp
  have first: "i \<notin> fst ` set rep"
    if "i < length df" "scan_type (df ! i) = v" "\<forall>j<i. scan_type (df ! j) \<noteq> v" for i
  proof
    assume "i \<in> fst ` set rep"
    then obtain u where "(i, u) \<in> set rep" by auto
    then have "i < length col \<and> col ! i = u \<and> u \<in> set (take i col)"
      using loc_dup_mem [of i u 0 "[]" col] by (auto simp: rep_def)
    then have "u = v" "\<exists>j<i. scan_type (df ! j) = u"
      using that by (auto simp: in_take_iff col_def)
    then show False using that by auto
  qed
  show ?thesis
  proof (intro exI conjI allI impI)
    show "check_duplicate_scans df = Inr out" by (rule out)
    show "Suc (length (filter (\<lambda>r. snd r = v) (report_rows out))) = count_list (map scan_type df) v"
      using cnt by (simp only: rows col_def)
    show "i \<notin> fst ` set (report_rows out)"
      if "i < length df \<and> scan_type (df ! i) = v \<and> (\<forall>j<i. scan_type (df ! j) \<noteq> v)" for i
      unfolding rows using first [of i] that by blast
  qed
qed

text \<open>
  C10 on the scans \<open>T1w, T1w, T2w\<close> and the type \<open>T1w\<close>.
\<close>

theorem duplicated_later_occurrences_witness:
  "''T1w'' \<in> set (map scan_type [mk_scan ''1'' ''t1_mprage'' ''T1w'', mk_scan ''2'' ''t1_mprage'' ''T1w'',
       mk_scan ''3'' ''t2_tse'' ''T2w'']) \<and>
   (\<exists>out. check_duplicate_scans [mk_scan ''1'' ''t1_mprage'' ''T1w'', mk_scan ''2'' ''t1_mprage'' ''T1w'',
       mk_scan ''3'' ''t2_tse'' ''T2w''] = Inr out \<and>
       Suc (length (filter (\<lambda>r. snd r = ''T1w'') (report_rows out))) = 2 \<and>
       0 \<notin> fst ` set (report_rows out))"
proof -
  define ex where "ex = [mk_scan ''1'' ''t1_mprage'' ''T1w'', mk_scan ''2'' ''t1_mprage'' ''T1w'',
       mk_scan ''3'' ''t2_tse'' ''T2w'']"
  have occ: "''T1w'' \<in> set (map scan_type ex)" by (simp add: ex_def mk_scan_def)
  have cnt: "count_list (map scan_type ex) ''T1w'' = 2" by (simp add: ex_def mk_scan_def)
  have first: "0 < length ex \<and> scan_type (ex ! 0) = ''T1w'' \<and> (\<forall>j<0. scan_type (ex ! j) \<noteq> ''T1w'')"
    by (simp add: ex_def mk_scan_def)
  obtain out where out: "check_duplicate_scans ex = Inr out"
    and n: "Suc (length (filter (\<lambda>r. snd r = ''T1w'') (report_rows out))) = count_list (map scan_type ex) ''T1w''"
    and f: "\<forall>i. i < length ex \<and> scan_type (ex ! i) = ''T1w'' \<and> (\<forall>j<i. scan_type (ex ! j) \<noteq> ''T1w'')
                 \<longrightarrow> i \<notin> fst ` set (report_rows out)"
    using duplicated_later_occurrences [OF occ] by blast
  have "0 \<notin> fst ` set (report_rows out)" using f first by blast
  then show ?thesis using occ out n cnt unfolding ex_def by auto
qed

end
